theory Spec2Isabelle
  imports Complex_Main "HOL-Library.AList"
begin

section \<open>Python values, exceptions and dictionaries\<close>

text \<open>
  The exceptions the modelled code raises itself (\<open>assert\<close>, \<open>raise RuntimeError\<close>,
  an index out of range, a missing keyword argument) and \<open>OtherError\<close> for whatever an
  external collaborator raises.
\<close>

datatype error =
    AssertionError string
  | RuntimeError string
  | IndexError
  | KeyError string
  | TypeError string
  | OtherError string

text \<open>
  The values that travel through the keyword-argument dictionaries: an element read from
  one of the population's arrays (kept opaque, of type \<open>'a\<close>), a Python \<open>str\<close>, a Python
  float literal, \<open>None\<close> and a \<open>bool\<close>.
\<close>

datatype 'a pyval =
    NpScalar 'a
  | PyStr string
  | PyFloat real
  | PyNone
  | PyBool bool

text \<open>
  A Python \<open>dict\<close> keeps its keys in insertion order and an assignment to a key that is
  present replaces the value in place: this is \<open>AList.update\<close> on an association list.
\<close>

type_synonym 'a pydict = "(string \<times> 'a pyval) list"

definition setitem :: "'a pydict \<Rightarrow> string \<Rightarrow> 'a pyval \<Rightarrow> 'a pydict" where
  "setitem d k v = AList.update k v d"

definition getitem :: "'a pydict \<Rightarrow> string \<Rightarrow> 'a pyval option" where
  "getitem d k = map_of d k"

text \<open>\<open>xs[i]\<close> for an index \<open>i\<close> that comes from \<open>range\<close> (never negative).\<close>

definition index :: "'b list \<Rightarrow> nat \<Rightarrow> error + 'b" where
  "index xs i = (if i < length xs then Inr (xs ! i) else Inl IndexError)"

text \<open>The decimal text of a non-negative integer, as an f-string prints it.\<close>

definition digit_char :: "nat \<Rightarrow> char" where
  "digit_char d = ''0123456789'' ! d"

function str_nat :: "nat \<Rightarrow> string" where
  "str_nat n = (if n < 10 then [digit_char n] else str_nat (n div 10) @ [digit_char (n mod 10)])"
  by pat_completeness auto
termination
  by (relation "measure (\<lambda>n. n)") auto

declare str_nat.simps [simp del]

section \<open>The population (external input) and the ParameterServer\<close>

text \<open>
  What the code reads of a popsynth population: the selection flags, the sky coordinates,
  the distances, and the attribute \<open>duration\<close>, which a population has only when its
  schema holds such a quantity (\<open>None\<close>: reading the attribute raises).
\<close>

record 'a population =
  selection :: "bool list"
  pop_ra :: "'a list"
  pop_dec :: "'a list"
  distances :: "'a list"
  pop_duration :: "'a list option"

text \<open>An array indexed by a boolean mask: the entries at the positions where the mask is true.\<close>

definition restrict :: "bool list \<Rightarrow> 'b list \<Rightarrow> 'b list" where
  "restrict flags xs = map snd (filter fst (zip flags xs))"

text \<open>
  Modelled from the spec: \<open>to_sub_population\<close> of popsynth, which is not among the
  sources. It is the projection that restricts a population to its selected subset: every
  array, the selection flags among them, keeps the entries of the selected records, in
  their order.
\<close>

definition to_sub_population :: "'a population \<Rightarrow> 'a population" where
  "to_sub_population p =
     \<lparr> selection = restrict (selection p) (selection p),
       pop_ra = restrict (selection p) (pop_ra p),
       pop_dec = restrict (selection p) (pop_dec p),
       distances = restrict (selection p) (distances p),
       pop_duration = map_option (restrict (selection p)) (pop_duration p) \<rparr>"

text \<open>class ParameterServer: the dictionary \<open>_parameters\<close> and the field \<open>_file_path\<close>.\<close>

record ('a, 'p) parameter_server =
  parameters :: "'a pydict"
  file_path :: "'p option"

definition required_keys :: "string list" where
  "required_keys = [''name'', ''ra'', ''dec'', ''z'', ''duration'', ''T0'']"

text \<open>
  \<open>ParameterServer.__init__(self, name, ra, dec, z, duration, T0, **kwargs)\<close> called as
  \<open>ParameterServer(**kw)\<close>: the six named parameters are bound from \<open>kw\<close> (a missing one is
  a \<open>TypeError\<close>), the other entries arrive in \<open>kwargs\<close> in their order.
\<close>

definition ParameterServer_init :: "'a pydict \<Rightarrow> error + ('a, 'p) parameter_server" where
  "ParameterServer_init kw =
     (case (getitem kw ''name'', getitem kw ''ra'', getitem kw ''dec'',
            getitem kw ''z'', getitem kw ''duration'', getitem kw ''T0'') of
        (Some name, Some ra, Some dec, Some z, Some duration, Some T0) \<Rightarrow>
          (let kwargs = filter (\<lambda>(k, v). k \<notin> set required_keys) kw;
               d = [(''name'', name), (''ra'', ra), (''dec'', dec),
                    (''z'', z), (''duration'', duration), (''T0'', T0)]
           in Inr \<lparr> parameters = fold (\<lambda>(k, v) acc. setitem acc k v) kwargs d,
                    file_path = None \<rparr>)
      | _ \<Rightarrow> Inl (TypeError ''missing required argument''))"

definition set_file_path :: "('a, 'p) parameter_server \<Rightarrow> 'p \<Rightarrow> ('a, 'p) parameter_server" where
  "set_file_path ps fp = ps \<lparr> file_path := Some fp \<rparr>"

section \<open>The environment of a Universe\<close>

text \<open>
  What Universe takes from outside its own file: pathlib (\<open>Path(s)\<close>, \<open>p / s\<close>,
  \<open>p.absolute()\<close> and \<open>p.exists()\<close>, the last two reading the working directory and the
  file system as they are at the call), \<open>Population.from_file\<close> of popsynth, which may
  raise, and the abstract method \<open>_parameter_server_type\<close> that a concrete Universe
  supplies.
\<close>

record ('a, 'p) env =
  Path :: "string \<Rightarrow> 'p"
  truediv :: "'p \<Rightarrow> string \<Rightarrow> 'p"
  absolute :: "'p \<Rightarrow> 'p"
  exists :: "'p \<Rightarrow> bool"
  from_file :: "string \<Rightarrow> error + 'a population"
  parameter_server_type :: "'a pydict \<Rightarrow> error + ('a, 'p) parameter_server"

section \<open>class Universe: construction\<close>

text \<open>The attributes of a Universe; \<open>self._x\<close> is the field \<open>u_x\<close>.\<close>

record ('a, 'p) universe =
  u_population_file :: "'p"
  u_is_processed :: bool
  u_population :: "'a population"
  u_grb_base_name :: string
  u_save_path :: "'p"
  u_n_grbs :: nat
  u_name :: "string list"
  u_local_parameters :: "(string \<times> 'a list) list"
  u_parameter_servers :: "('a, 'p) parameter_server list"
  u_ra :: "'a list"
  u_dec :: "'a list"
  u_z :: "'a list"
  u_duration :: "'a list"

definition get_sky_coord :: "('a, 'p) universe \<Rightarrow> ('a, 'p) universe" where
  "get_sky_coord u = u \<lparr> u_ra := pop_ra (u_population u), u_dec := pop_dec (u_population u) \<rparr>"

definition get_redshift :: "('a, 'p) universe \<Rightarrow> ('a, 'p) universe" where
  "get_redshift u = u \<lparr> u_z := distances (u_population u) \<rparr>"

definition get_duration :: "('a, 'p) universe \<Rightarrow> error + ('a, 'p) universe" where
  "get_duration u =
     (case pop_duration (u_population u) of
        None \<Rightarrow> Inl (RuntimeError ''The population must contain a duration value'')
      | Some d \<Rightarrow> Inr (u \<lparr> u_duration := d \<rparr>))"

definition process_populations :: "('a, 'p) universe \<Rightarrow> error + ('a, 'p) universe" where
  "process_populations u = get_duration (get_redshift (get_sky_coord u))"

text \<open>
  The inner loop of \<open>_contstruct_parameter_servers\<close>:
  \<open>for k, v in self._local_parameters.items(): param_dict[k] = v[i]\<close>.
\<close>

fun add_local_parameters ::
  "(string \<times> 'a list) list \<Rightarrow> nat \<Rightarrow> 'a pydict \<Rightarrow> error + 'a pydict" where
  "add_local_parameters [] i param_dict = Inr param_dict"
| "add_local_parameters ((k, v) # rest) i param_dict =
     (case index v i of
        Inl e \<Rightarrow> Inl e
      | Inr x \<Rightarrow> add_local_parameters rest i (setitem param_dict k (NpScalar x)))"

text \<open>The dictionary one iteration builds before it calls \<open>_parameter_server_type\<close>.\<close>

definition param_dict_of :: "('a, 'p) universe \<Rightarrow> nat \<Rightarrow> error + 'a pydict" where
  "param_dict_of u i =
     (case index (u_z u) i of Inl e \<Rightarrow> Inl e | Inr z \<Rightarrow>
     (case index (u_ra u) i of Inl e \<Rightarrow> Inl e | Inr ra \<Rightarrow>
     (case index (u_dec u) i of Inl e \<Rightarrow> Inl e | Inr dec \<Rightarrow>
     (case index (u_name u) i of Inl e \<Rightarrow> Inl e | Inr name \<Rightarrow>
     (case index (u_duration u) i of Inl e \<Rightarrow> Inl e | Inr duration \<Rightarrow>
        (let d0 = setitem [] ''z'' (NpScalar z);
             d1 = setitem d0 ''ra'' (NpScalar ra);
             d2 = setitem d1 ''dec'' (NpScalar dec);
             d3 = setitem d2 ''name'' (PyStr name);
             d4 = setitem d3 ''duration'' (NpScalar duration);
             d5 = setitem d4 ''T0'' (PyFloat 0)
         in add_local_parameters (u_local_parameters u) i d5))))))"

definition store_name :: "string \<Rightarrow> string" where
  "store_name name = name @ ''_store.h5''"

text \<open>
  The body of the loop \<open>for i in range(self._n_grbs)\<close>, on the run list: the
  ParameterServer is built first, then the file is looked for, and only a ParameterServer
  whose file is absent gets its path and joins the list.
\<close>

definition contstruct_one ::
  "('a, 'p) env \<Rightarrow> ('a, 'p) universe \<Rightarrow> nat \<Rightarrow> ('a, 'p) parameter_server list \<Rightarrow>
   error + ('a, 'p) parameter_server list" where
  "contstruct_one E u i servers =
     (case param_dict_of u i of Inl e \<Rightarrow> Inl e | Inr param_dict \<Rightarrow>
     (case parameter_server_type E param_dict of Inl e \<Rightarrow> Inl e | Inr param_server \<Rightarrow>
     (case index (u_name u) i of Inl e \<Rightarrow> Inl e | Inr name \<Rightarrow>
        (let file_name = truediv E (u_save_path u) (store_name name)
         in if exists E file_name then Inr servers
            else Inr (servers @ [set_file_path param_server file_name])))))"

fun contstruct_loop ::
  "('a, 'p) env \<Rightarrow> ('a, 'p) universe \<Rightarrow> nat list \<Rightarrow> ('a, 'p) parameter_server list \<Rightarrow>
   error + ('a, 'p) parameter_server list" where
  "contstruct_loop E u [] servers = Inr servers"
| "contstruct_loop E u (i # is) servers =
     (case contstruct_one E u i servers of
        Inl e \<Rightarrow> Inl e
      | Inr servers' \<Rightarrow> contstruct_loop E u is servers')"

definition contstruct_parameter_servers ::
  "('a, 'p) env \<Rightarrow> ('a, 'p) universe \<Rightarrow> error + ('a, 'p) universe" where
  "contstruct_parameter_servers E u =
     (case contstruct_loop E u [0 ..< u_n_grbs u] (u_parameter_servers u) of
        Inl e \<Rightarrow> Inl e
      | Inr servers \<Rightarrow> Inr (u \<lparr> u_parameter_servers := servers \<rparr>))"

text \<open>\<open>sum(selection)\<close> of a boolean array counts its true entries.\<close>

definition sum_selection :: "bool list \<Rightarrow> nat" where
  "sum_selection sel = sum_list (map (\<lambda>b. if b then 1 else 0) sel)"

definition grb_name :: "string \<Rightarrow> nat \<Rightarrow> string" where
  "grb_name base i = base @ ''_'' @ str_nat i"

text \<open>
  \<open>Universe.__init__(self, population_file, grb_base_name, save_path)\<close>. The attributes
  that the source assigns later in the constructor start empty here; none is read before
  its assignment.
\<close>

definition Universe_init ::
  "('a, 'p) env \<Rightarrow> string \<Rightarrow> string \<Rightarrow> string \<Rightarrow> error + ('a, 'p) universe" where
  "Universe_init E population_file grb_base_name save_path =
     (case from_file E population_file of
        Inl e \<Rightarrow> Inl e
      | Inr loaded \<Rightarrow>
          (let pop = to_sub_population loaded in
           if sum_selection (selection pop) \<noteq> length (selection pop)
           then Inl (AssertionError
             ''The population seems to have had a prior selection on it. This is not good'')
           else
             (let n = length (selection pop);
                  u = \<lparr> u_population_file = absolute E (Path E population_file),
                        u_is_processed = False,
                        u_population = pop,
                        u_grb_base_name = grb_base_name,
                        u_save_path = Path E save_path,
                        u_n_grbs = n,
                        u_name = map (grb_name grb_base_name) [0 ..< n],
                        u_local_parameters = [],
                        u_parameter_servers = [],
                        u_ra = [], u_dec = [], u_z = [], u_duration = [] \<rparr>
              in case process_populations u of
                   Inl e \<Rightarrow> Inl e
                 | Inr u' \<Rightarrow> contstruct_parameter_servers E u')))"

section \<open>class Universe: go and save\<close>









section \<open>class GRBWrapper\<close>



section \<open>The response generator registry\<close>

definition det_translate :: "(string \<times> string) list" where
  "det_translate =
     [(''n0'', ''NAI_00''), (''n1'', ''NAI_01''), (''n2'', ''NAI_02''), (''n3'', ''NAI_03''),
      (''n4'', ''NAI_04''), (''n5'', ''NAI_05''), (''n6'', ''NAI_06''), (''n7'', ''NAI_07''),
      (''n8'', ''NAI_08''), (''n9'', ''NAI_09''), (''na'', ''NAI_10''), (''nb'', ''NAI_11''),
      (''b0'', ''BGO_00''), (''b1'', ''BGO_01'')]"

text \<open>The keyword arguments of one \<open>DRMGenTTE(...)\<close> construction.\<close>

record 'n drm_args =
  arg_det_name :: string
  arg_time :: int
  arg_T0 :: "'n"
  arg_cspecfile :: string
  arg_poshist :: string
  arg_mat_type :: int
  arg_occult :: bool

text \<open>
  What the registry takes from outside its file: the class \<open>DRMGenTTE\<close> of gbm_drm_gen
  (its constructor, the attributes \<open>monte_carlo_energies\<close>, \<open>ebounds\<close> and \<open>matrix\<close>, the
  methods \<open>set_time\<close> and \<open>set_location\<close>, which change the object and may raise), the
  transposition \<open>.T\<close> of an array, \<open>gbm_orbit.T0\<close> and \<open>get_path_of_data_file\<close>. A
  detector object's state is a \<open>'d\<close>, a number an \<open>'n\<close>, an array an \<open>'m\<close>.
\<close>

record ('d, 'n, 'm) drm_lib =
  DRMGenTTE :: "'n drm_args \<Rightarrow> error + 'd"
  monte_carlo_energies :: "'d \<Rightarrow> 'm"
  drm_ebounds :: "'d \<Rightarrow> 'm"
  matrix :: "'d \<Rightarrow> 'm"
  drm_set_time :: "'d \<Rightarrow> 'n \<Rightarrow> error option \<times> 'd"
  drm_set_location :: "'d \<Rightarrow> 'n \<Rightarrow> 'n \<Rightarrow> error option \<times> 'd"
  transpose_T :: "'m \<Rightarrow> 'm"
  gbm_orbit_T0 :: "'n"
  get_path_of_data_file :: "string \<Rightarrow> string"

text \<open>
  A ResponseGenerator: its three dictionaries. \<open>_detectors\<close> holds references, the
  addresses of the DRMGenTTE objects in the store.
\<close>

record 'm response_generator =
  detectors :: "(string \<times> nat) list"
  mc_energies :: "(string \<times> 'm) list"
  ebounds :: "(string \<times> 'm) list"

text \<open>
  The objects of one process: the store of DRMGenTTE objects and the store of
  ResponseGenerator instances (an address is allocated at \<open>*_next\<close>), and the class
  attribute \<open>ResponseGenerator._inst\<close> (\<open>None\<close> while the class has no such attribute).
\<close>

record ('d, 'm) process =
  drm_store :: "nat \<Rightarrow> 'd"
  drm_next :: nat
  rg_store :: "nat \<Rightarrow> 'm response_generator"
  rg_next :: nat
  inst :: "nat option"

text \<open>
  The loop of \<open>ResponseGenerator.__init__\<close> over \<open>_det_translate.items()\<close>: each
  iteration builds one DRMGenTTE, a new object, and enters it in the three dictionaries.
\<close>

fun init_loop ::
  "('d, 'n, 'm) drm_lib \<Rightarrow> (string \<times> string) list \<Rightarrow> 'm response_generator \<Rightarrow>
   ('d, 'm) process \<Rightarrow> (error + 'm response_generator) \<times> ('d, 'm) process" where
  "init_loop L [] self P = (Inr self, P)"
| "init_loop L ((k, v) # rest) self P =
     (case map_of det_translate k of
        None \<Rightarrow> (Inl (KeyError k), P)
      | Some translated \<Rightarrow>
          (case DRMGenTTE L
                  \<lparr> arg_det_name = translated, arg_time = 1, arg_T0 = gbm_orbit_T0 L,
                    arg_cspecfile = get_path_of_data_file L (''gbm_cspec/'' @ k @ ''.pha''),
                    arg_poshist = get_path_of_data_file L ''posthist.fit'',
                    arg_mat_type = 2, arg_occult = False \<rparr> of
             Inl e \<Rightarrow> (Inl e, P)
           | Inr drm_gen \<Rightarrow>
               (let a = drm_next P;
                    P' = P \<lparr> drm_store := (drm_store P)(a := drm_gen), drm_next := Suc a \<rparr>;
                    self' = self \<lparr> detectors := AList.update k a (detectors self),
                                   mc_energies := AList.update k (monte_carlo_energies L drm_gen)
                                                    (mc_energies self),
                                   ebounds := AList.update k (drm_ebounds L drm_gen)
                                                (ebounds self) \<rparr>
                in init_loop L rest self' P')))"

definition ResponseGenerator_init ::
  "('d, 'n, 'm) drm_lib \<Rightarrow> ('d, 'm) process \<Rightarrow>
   (error + 'm response_generator) \<times> ('d, 'm) process" where
  "ResponseGenerator_init L P =
     init_loop L det_translate \<lparr> detectors = [], mc_energies = [], ebounds = [] \<rparr> P"

text \<open>
  \<open>SingletonMeta.__call__\<close> for the class ResponseGenerator, which takes no argument:
  the instance is built and kept in \<open>_inst\<close> only when the class has no \<open>_inst\<close>; the
  reference in \<open>_inst\<close> is returned. A construction that raises stores nothing.
\<close>

definition SingletonMeta_call ::
  "('d, 'n, 'm) drm_lib \<Rightarrow> ('d, 'm) process \<Rightarrow> (error + nat) \<times> ('d, 'm) process" where
  "SingletonMeta_call L P =
     (case inst P of
        None \<Rightarrow>
          (case ResponseGenerator_init L P of
             (Inl e, P1) \<Rightarrow> (Inl e, P1)
           | (Inr self, P1) \<Rightarrow>
               (let obj = rg_next P1
                in (Inr obj, P1 \<lparr> rg_store := (rg_store P1)(obj := self),
                                  rg_next := Suc obj, inst := Some obj \<rparr>)))
      | Some a \<Rightarrow> (Inr a, P))"

text \<open>A method call on the object at address \<open>a\<close>, which changes that object.\<close>

definition on_object ::
  "nat \<Rightarrow> ('d \<Rightarrow> error option \<times> 'd) \<Rightarrow> ('d, 'm) process \<Rightarrow> error option \<times> ('d, 'm) process" where
  "on_object a m P =
     (case m (drm_store P a) of (r, d') \<Rightarrow> (r, P \<lparr> drm_store := (drm_store P)(a := d') \<rparr>))"

text \<open>\<open>ResponseGenerator.generate_response(self, ra, dec, time, det_name)\<close>.\<close>

definition generate_response ::
  "('d, 'n, 'm) drm_lib \<Rightarrow> 'm response_generator \<Rightarrow> 'n \<Rightarrow> 'n \<Rightarrow> 'n \<Rightarrow> string \<Rightarrow>
   ('d, 'm) process \<Rightarrow> (error + 'm) \<times> ('d, 'm) process" where
  "generate_response L self ra dec time det_name P =
     (case map_of (detectors self) det_name of
        None \<Rightarrow> (Inl (AssertionError []), P)
      | Some a \<Rightarrow>
          (case on_object a (\<lambda>d. drm_set_time L d time) P of
             (Some e, P1) \<Rightarrow> (Inl e, P1)
           | (None, P1) \<Rightarrow>
               (case map_of (detectors self) det_name of
                  None \<Rightarrow> (Inl (AssertionError []), P1)
                | Some a' \<Rightarrow>
                    (case on_object a' (\<lambda>d. drm_set_location L d ra dec) P1 of
                       (Some e, P2) \<Rightarrow> (Inl e, P2)
                     | (None, P2) \<Rightarrow>
                         (Inr (transpose_T L (matrix L (drm_store P2 a'))), P2)))))"

text \<open>\<open>ResponseGenerator.set_time(self, time, det_name)\<close>.\<close>

definition set_time ::
  "('d, 'n, 'm) drm_lib \<Rightarrow> 'm response_generator \<Rightarrow> 'n \<Rightarrow> string \<Rightarrow>
   ('d, 'm) process \<Rightarrow> error option \<times> ('d, 'm) process" where
  "set_time L self time det_name P =
     (case map_of (detectors self) det_name of
        None \<Rightarrow> (Some (AssertionError []), P)
      | Some a \<Rightarrow> on_object a (\<lambda>d. drm_set_time L d time) P)"

text \<open>\<open>ResponseGenerator.set_location(self, ra, dec, det_name)\<close>.\<close>

definition set_location ::
  "('d, 'n, 'm) drm_lib \<Rightarrow> 'm response_generator \<Rightarrow> 'n \<Rightarrow> 'n \<Rightarrow> string \<Rightarrow>
   ('d, 'm) process \<Rightarrow> (error + 'm) \<times> ('d, 'm) process" where
  "set_location L self ra dec det_name P =
     (case map_of (detectors self) det_name of
        None \<Rightarrow> (Inl (AssertionError []), P)
      | Some a \<Rightarrow>
          (case on_object a (\<lambda>d. drm_set_location L d ra dec) P of
             (Some e, P1) \<Rightarrow> (Inl e, P1)
           | (None, P1) \<Rightarrow> (Inr (transpose_T L (matrix L (drm_store P1 a))), P1)))"

section \<open>Histories of one process\<close>

text \<open>
  What a program does with the registry in one process, in order: it asks for the
  ResponseGenerator (a construction request) or calls one of the three methods on the
  instance that \<open>_inst\<close> holds. A method call before any instance exists has no object to
  act on and leaves the process as it is.
\<close>

datatype 'n request =
    Construct
  | Generate_response 'n 'n 'n string
  | Set_time 'n string
  | Set_location 'n 'n string

definition run_request ::
  "('d, 'n, 'm) drm_lib \<Rightarrow> 'n request \<Rightarrow> ('d, 'm) process \<Rightarrow> ('d, 'm) process" where
  "run_request L r P =
     (case r of
        Construct \<Rightarrow> snd (SingletonMeta_call L P)
      | Generate_response ra dec time det_name \<Rightarrow>
          (case inst P of None \<Rightarrow> P
           | Some a \<Rightarrow> snd (generate_response L (rg_store P a) ra dec time det_name P))
      | Set_time time det_name \<Rightarrow>
          (case inst P of None \<Rightarrow> P
           | Some a \<Rightarrow> snd (set_time L (rg_store P a) time det_name P))
      | Set_location ra dec det_name \<Rightarrow>
          (case inst P of None \<Rightarrow> P
           | Some a \<Rightarrow> snd (set_location L (rg_store P a) ra dec det_name P)))"

definition run_requests ::
  "('d, 'n, 'm) drm_lib \<Rightarrow> 'n request list \<Rightarrow> ('d, 'm) process \<Rightarrow> ('d, 'm) process" where
  "run_requests L rs P = fold (run_request L) rs P"

text \<open>
  Nothing was built between two states of a process: the same \<open>_inst\<close>, the same
  ResponseGenerator instances and no new DRMGenTTE object.
\<close>

definition same_registry :: "('d, 'm) process \<Rightarrow> ('d, 'm) process \<Rightarrow> bool" where
  "same_registry P P' \<longleftrightarrow>
     inst P' = inst P \<and> rg_next P' = rg_next P \<and> rg_store P' = rg_store P \<and>
     drm_next P' = drm_next P"

definition fresh_or_single :: "('d, 'm) process \<Rightarrow> bool" where
  "fresh_or_single P \<longleftrightarrow>
     (inst P = None \<and> rg_next P = 0) \<or> (inst P = Some 0 \<and> rg_next P = 1)"

section \<open>A worked example\<close>

text \<open>
  A population file of three selected records (durations 10, 20 and 5), the base name
  \<open>Test\<close> and the directory \<open>out\<close>, in which \<open>Test_1_store.h5\<close> exists already. The other
  files of the example hold the same records with one flag cleared (\<open>raw.h5\<close>), without
  the duration (\<open>nodur.h5\<close>), and with both (\<open>bad.h5\<close>). Paths are strings here, the
  working directory is \<open>/cwd\<close> and the ParameterServer type is the class ParameterServer
  itself.
\<close>

definition ex_population :: "int population" where
  "ex_population =
     \<lparr> selection = [True, True, True], pop_ra = [10, 120, 250], pop_dec = [-30, 0, 45],
       distances = [1, 2, 3], pop_duration = Some [10, 20, 5] \<rparr>"

definition ex_env :: "(int, string) env" where
  "ex_env =
     \<lparr> Path = (\<lambda>s. s),
       truediv = (\<lambda>p s. p @ ''/'' @ s),
       absolute = (\<lambda>p. ''/cwd/'' @ p),
       exists = (\<lambda>p. p = ''out/Test_1_store.h5''),
       from_file = (\<lambda>f.
         if f = ''pop.h5'' then Inr ex_population
         else if f = ''raw.h5'' then Inr (ex_population \<lparr> selection := [True, False, True] \<rparr>)
         else if f = ''nodur.h5'' then Inr (ex_population \<lparr> pop_duration := None \<rparr>)
         else if f = ''bad.h5'' then
           Inr (ex_population \<lparr> selection := [True, False, True], pop_duration := None \<rparr>)
         else Inl (OtherError ''no such file'')),
       parameter_server_type = ParameterServer_init \<rparr>"

text \<open>The Universe that the constructor builds from \<open>pop.h5\<close>.\<close>

definition ex_universe :: "(int, string) universe" where
  "ex_universe =
     \<lparr> u_population_file = ''/cwd/pop.h5'', u_is_processed = False,
       u_population = ex_population,
       u_grb_base_name = ''Test'', u_save_path = ''out'', u_n_grbs = 3,
       u_name = [''Test_0'', ''Test_1'', ''Test_2''],
       u_local_parameters = [],
       u_parameter_servers =
         [\<lparr> parameters =
              [(''name'', PyStr ''Test_0''), (''ra'', NpScalar 10), (''dec'', NpScalar (- 30)),
               (''z'', NpScalar 1), (''duration'', NpScalar 10), (''T0'', PyFloat 0)],
            file_path = Some ''out/Test_0_store.h5'' \<rparr>,
          \<lparr> parameters =
              [(''name'', PyStr ''Test_2''), (''ra'', NpScalar 250), (''dec'', NpScalar 45),
               (''z'', NpScalar 3), (''duration'', NpScalar 5), (''T0'', PyFloat 0)],
            file_path = Some ''out/Test_2_store.h5'' \<rparr>],
       u_ra = [10, 120, 250], u_dec = [- 30, 0, 45], u_z = [1, 2, 3],
       u_duration = [10, 20, 5] \<rparr>"



text \<open>
  A detector model that is its current time and pointing, with the three of them as its
  matrix, and a process in which nothing has been built.
\<close>

definition ex_lib :: "(int \<times> int \<times> int, int, int list) drm_lib" where
  "ex_lib =
     \<lparr> DRMGenTTE = (\<lambda>args. Inr (arg_time args, 0, 0)),
       monte_carlo_energies = (\<lambda>d. [1, 2, 3]),
       drm_ebounds = (\<lambda>d. [4, 5]),
       matrix = (\<lambda>(t, r, d). [t, r, d]),
       drm_set_time = (\<lambda>(t, r, d) t'. (None, (t', r, d))),
       drm_set_location = (\<lambda>(t, r, d) r' d'. (None, (t, r', d'))),
       transpose_T = rev,
       gbm_orbit_T0 = 0,
       get_path_of_data_file = (\<lambda>s. ''/data/'' @ s) \<rparr>"

definition ex_process :: "(int \<times> int \<times> int, int list) process" where
  "ex_process =
     \<lparr> drm_store = (\<lambda>a. (0, 0, 0)), drm_next = 0,
       rg_store = (\<lambda>a. \<lparr> detectors = [], mc_energies = [], ebounds = [] \<rparr>), rg_next = 0,
       inst = None \<rparr>"

text \<open>The registry that the constructor builds in that process, and the process after it.\<close>

definition ex_registry :: "int list response_generator" where
  "ex_registry =
     \<lparr> detectors = zip (map fst det_translate) [0 ..< 14],
       mc_energies = map (\<lambda>(k, v). (k, [1, 2, 3])) det_translate,
       ebounds = map (\<lambda>(k, v). (k, [4, 5])) det_translate \<rparr>"

definition ex_built :: "(int \<times> int \<times> int, int list) process" where
  "ex_built = snd (ResponseGenerator_init ex_lib ex_process)"

section \<open>Construction: the selection check and the duration\<close>

lemma sum_selection_le: "sum_selection sel \<le> length sel"
  by (induction sel) (auto simp: sum_selection_def)

lemma sum_selection_eq: "sum_selection sel = length sel \<longleftrightarrow> False \<notin> set sel"
proof (induction sel)
  case Nil
  show ?case by (simp add: sum_selection_def)
next
  case (Cons b bs)
  have le: "sum_selection bs \<le> length bs" by (rule sum_selection_le)
  have step: "sum_selection (b # bs) = (if b then 1 else 0) + sum_selection bs"
    by (simp add: sum_selection_def)
  show ?case
  proof (cases b)
    case True
    with Cons step show ?thesis by simp
  next
    case False
    with step le show ?thesis by simp
  qed
qed

text \<open>After the projection every flag is true, so the check of lines 56 to 58 holds.\<close>

lemma restrict_selection: "False \<notin> set (restrict sel sel)"
  by (auto simp: restrict_def zip_same)

lemma selection_check_holds:
  "sum_selection (selection (to_sub_population p)) = length (selection (to_sub_population p))"
  by (simp add: sum_selection_eq to_sub_population_def restrict_selection)

lemma pop_duration_to_sub_population:
  "pop_duration (to_sub_population p) = None \<longleftrightarrow> pop_duration p = None"
  by (simp add: to_sub_population_def)

text \<open>What a constructor that returned has done.\<close>

lemma Universe_init_Inr:
  assumes "Universe_init E pf b sp = Inr u"
  shows "\<exists>loaded d.
           from_file E pf = Inr loaded \<and>
           False \<notin> set (selection (to_sub_population loaded)) \<and>
           pop_duration (to_sub_population loaded) = Some d \<and>
           u_is_processed u = False \<and>
           u_population u = to_sub_population loaded \<and>
           u_population_file u = absolute E (Path E pf) \<and>
           u_grb_base_name u = b \<and>
           u_save_path u = Path E sp \<and>
           u_n_grbs u = length (selection (to_sub_population loaded)) \<and>
           u_name u = map (grb_name b) [0 ..< u_n_grbs u] \<and>
           u_local_parameters u = [] \<and>
           u_ra u = pop_ra (to_sub_population loaded) \<and>
           u_dec u = pop_dec (to_sub_population loaded) \<and>
           u_z u = distances (to_sub_population loaded) \<and>
           u_duration u = d \<and>
           contstruct_loop E (u \<lparr> u_parameter_servers := [] \<rparr>) [0 ..< u_n_grbs u] [] =
             Inr (u_parameter_servers u)"
  using assms
  unfolding Universe_init_def Let_def process_populations_def get_duration_def
    get_redshift_def get_sky_coord_def contstruct_parameter_servers_def
  by (auto split: sum.splits if_splits option.splits simp: sum_selection_eq)

text \<open>
  C2. The constructor does not fail on a population that has a record whose selection
  flag is false. At \<open>raw.h5\<close>, whose flags are true, false, true, \<open>to_sub_population\<close>
  drops the second record before the check of lines 56 to 58 is made, the check holds (as
  it does after the projection of any population), and the constructor returns a
  Universe of the two selected records, named \<open>Test_0\<close> and \<open>Test_1\<close>. The assertion
  "The population seems to have had a prior selection on it" cannot be raised.
\<close>

theorem unfiltered_population_constructs:
  "from_file ex_env ''raw.h5'' = Inr (ex_population \<lparr> selection := [True, False, True] \<rparr>) \<and>
   False \<in> set (selection (ex_population \<lparr> selection := [True, False, True] \<rparr>)) \<and>
   (case Universe_init ex_env ''raw.h5'' ''Test'' ''out'' of
      Inl e \<Rightarrow> False
    | Inr u \<Rightarrow>
        u_n_grbs u = 2 \<and> selection (u_population u) = [True, True] \<and>
        u_name u = [''Test_0'', ''Test_1''] \<and> u_ra u = [10, 250] \<and> u_duration u = [10, 5])"
  by code_simp

text \<open>
  C9. Whenever the population read from the file has no duration, the constructor fails
  with the runtime error "The population must contain a duration value" raised by
  \<open>_get_duration\<close>, whatever the selection flags are, and no ParameterServer type is ever
  called: the outcome is the same for every ParameterServer type.
\<close>

theorem missing_duration_rejected:
  assumes "from_file E population_file = Inr loaded"
    and "pop_duration loaded = None"
  shows "Universe_init E population_file grb_base_name save_path =
           Inl (RuntimeError ''The population must contain a duration value'') \<and>
         (\<forall>f. Universe_init (E \<lparr> parameter_server_type := f \<rparr>) population_file grb_base_name
                 save_path = Universe_init E population_file grb_base_name save_path)"
proof -
  from assms(2) have none: "pop_duration (to_sub_population loaded) = None"
    by (simp add: pop_duration_to_sub_population)
  show ?thesis
    using assms(1)
    by (simp add: Universe_init_def Let_def selection_check_holds none
        process_populations_def get_duration_def get_redshift_def get_sky_coord_def)
qed

section \<open>Construction: the run list\<close>

lemma param_dict_of_servers [simp]:
  "param_dict_of (u \<lparr> u_parameter_servers := x \<rparr>) i = param_dict_of u i"
  by (simp add: param_dict_of_def cong: sum.case_cong)

lemma contstruct_one_servers [simp]:
  "contstruct_one E (u \<lparr> u_parameter_servers := x \<rparr>) i servers = contstruct_one E u i servers"
  by (simp add: contstruct_one_def cong: sum.case_cong)

lemma contstruct_loop_servers [simp]:
  "contstruct_loop E (u \<lparr> u_parameter_servers := x \<rparr>) is servers = contstruct_loop E u is servers"
  by (induction "is" arbitrary: servers) (auto split: sum.splits)

lemma contstruct_one_Inr:
  assumes "contstruct_one E u i servers = Inr servers'"
  shows "\<exists>d ps. param_dict_of u i = Inr d \<and> parameter_server_type E d = Inr ps \<and>
           i < length (u_name u) \<and>
           servers' = servers @
             (if exists E (truediv E (u_save_path u) (store_name (u_name u ! i))) then []
              else [set_file_path ps (truediv E (u_save_path u) (store_name (u_name u ! i)))])"
  using assms unfolding contstruct_one_def Let_def index_def
  by (auto split: sum.splits if_splits)

text \<open>
  The loop, from any run list: it appends, in order, the ParameterServers of the indices
  whose file is absent, each with its path.
\<close>

lemma contstruct_loop_Inr:
  assumes "contstruct_loop E u is servers = Inr servers'"
  shows "\<exists>server.
           (\<forall>i \<in> set is. i < length (u_name u) \<and>
              (\<exists>d. param_dict_of u i = Inr d \<and> parameter_server_type E d = Inr (server i))) \<and>
           servers' = servers @
             map (\<lambda>i. set_file_path (server i) (truediv E (u_save_path u) (store_name (u_name u ! i))))
               (filter (\<lambda>i. \<not> exists E (truediv E (u_save_path u) (store_name (u_name u ! i)))) is)"
  using assms
proof (induction "is" arbitrary: servers)
  case Nil
  then show ?case by simp
next
  case (Cons i "is")
  from Cons.prems obtain mid where one: "contstruct_one E u i servers = Inr mid"
    and rest: "contstruct_loop E u is mid = Inr servers'"
    by (auto split: sum.splits)
  from contstruct_one_Inr [OF one] obtain d ps where
    d: "param_dict_of u i = Inr d" and ps: "parameter_server_type E d = Inr ps"
    and len: "i < length (u_name u)"
    and mid: "mid = servers @
             (if exists E (truediv E (u_save_path u) (store_name (u_name u ! i))) then []
              else [set_file_path ps (truediv E (u_save_path u) (store_name (u_name u ! i)))])"
    by blast
  from Cons.IH [OF rest] obtain server where
    all: "\<forall>j \<in> set is. j < length (u_name u) \<and>
              (\<exists>d. param_dict_of u j = Inr d \<and> parameter_server_type E d = Inr (server j))"
    and out: "servers' = mid @
             map (\<lambda>i. set_file_path (server i) (truediv E (u_save_path u) (store_name (u_name u ! i))))
               (filter (\<lambda>i. \<not> exists E (truediv E (u_save_path u) (store_name (u_name u ! i)))) is)"
    by blast
  have same: "\<And>j. j \<in> set is \<Longrightarrow> j = i \<Longrightarrow> server j = ps"
    using all d ps by auto
  let ?server = "server (i := ps)"
  have "\<forall>j \<in> set (i # is). j < length (u_name u) \<and>
              (\<exists>d. param_dict_of u j = Inr d \<and> parameter_server_type E d = Inr (?server j))"
    using all d ps len by auto
  moreover have "map (\<lambda>i. set_file_path (?server i) (truediv E (u_save_path u) (store_name (u_name u ! i))))
               (filter (\<lambda>i. \<not> exists E (truediv E (u_save_path u) (store_name (u_name u ! i)))) is)
     = map (\<lambda>i. set_file_path (server i) (truediv E (u_save_path u) (store_name (u_name u ! i))))
               (filter (\<lambda>i. \<not> exists E (truediv E (u_save_path u) (store_name (u_name u ! i)))) is)"
    using same by (intro map_cong) auto
  ultimately show ?case
    using mid out by (intro exI [of _ ?server]) auto
qed

lemma store_name_grb_name:
  "store_name (grb_name b i) = b @ ''_'' @ str_nat i @ ''_store.h5''"
  by (simp add: store_name_def grb_name_def)

lemma run_list_of_init:
  assumes "Universe_init E population_file grb_base_name save_path = Inr u"
  shows "\<exists>server.
           (\<forall>i < u_n_grbs u. \<exists>d. param_dict_of u i = Inr d \<and>
              parameter_server_type E d = Inr (server i)) \<and>
           u_parameter_servers u =
             map (\<lambda>i. set_file_path (server i)
                    (truediv E (Path E save_path)
                       (grb_base_name @ ''_'' @ str_nat i @ ''_store.h5'')))
               (filter (\<lambda>i. \<not> exists E
                    (truediv E (Path E save_path)
                       (grb_base_name @ ''_'' @ str_nat i @ ''_store.h5'')))
                  [0 ..< u_n_grbs u])"
proof -
  from Universe_init_Inr [OF assms] have
    sp: "u_save_path u = Path E save_path"
    and nm: "u_name u = map (grb_name grb_base_name) [0 ..< u_n_grbs u]"
    and loop: "contstruct_loop E (u \<lparr> u_parameter_servers := [] \<rparr>) [0 ..< u_n_grbs u] [] =
                 Inr (u_parameter_servers u)"
    by auto
  from loop have "contstruct_loop E u [0 ..< u_n_grbs u] [] = Inr (u_parameter_servers u)"
    by simp
  from contstruct_loop_Inr [OF this] obtain server where
    all: "\<forall>i \<in> set [0 ..< u_n_grbs u]. i < length (u_name u) \<and>
              (\<exists>d. param_dict_of u i = Inr d \<and> parameter_server_type E d = Inr (server i))"
    and out: "u_parameter_servers u = [] @
             map (\<lambda>i. set_file_path (server i) (truediv E (u_save_path u) (store_name (u_name u ! i))))
               (filter (\<lambda>i. \<not> exists E (truediv E (u_save_path u) (store_name (u_name u ! i))))
                  [0 ..< u_n_grbs u])"
    by blast
  have name_at: "\<And>i. i < u_n_grbs u \<Longrightarrow>
      store_name (u_name u ! i) = grb_base_name @ ''_'' @ str_nat i @ ''_store.h5''"
    by (subst nm) (simp add: store_name_grb_name)
  have flt: "filter (\<lambda>i. \<not> exists E (truediv E (u_save_path u) (store_name (u_name u ! i))))
                  [0 ..< u_n_grbs u]
           = filter (\<lambda>i. \<not> exists E (truediv E (Path E save_path)
                       (grb_base_name @ ''_'' @ str_nat i @ ''_store.h5'')))
                  [0 ..< u_n_grbs u]"
    by (rule filter_cong) (simp_all add: name_at sp)
  have "u_parameter_servers u =
             map (\<lambda>i. set_file_path (server i)
                    (truediv E (Path E save_path)
                       (grb_base_name @ ''_'' @ str_nat i @ ''_store.h5'')))
               (filter (\<lambda>i. \<not> exists E
                    (truediv E (Path E save_path)
                       (grb_base_name @ ''_'' @ str_nat i @ ''_store.h5'')))
                  [0 ..< u_n_grbs u])"
    unfolding out flt append_Nil
    by (rule map_cong) (simp_all add: name_at sp)
  with all show ?thesis by (intro exI [of _ server]) auto
qed

text \<open>
  C1. When the constructor returns a Universe of \<open>N\<close> records, it has built one
  ParameterServer \<open>server i\<close> for every index \<open>i < N\<close>, from the dictionary of record
  \<open>i\<close>, and its run list is, in index order, exactly the ParameterServers of the indices
  whose file \<open>save_path / (base_name_i_store.h5)\<close> did not exist, each with its file path
  set to that path. The ParameterServer of an index whose file exists is not in the list,
  and \<open>set_file_path\<close> is applied to none but the listed ones. The test reads the file
  system of the constructor call; \<open>go\<close> takes no file system at all.
\<close>

theorem skip_rule:
  assumes "Universe_init E population_file grb_base_name save_path = Inr u"
  shows "\<exists>server.
           (\<forall>i < u_n_grbs u. \<exists>d. param_dict_of u i = Inr d \<and>
              parameter_server_type E d = Inr (server i)) \<and>
           u_parameter_servers u =
             map (\<lambda>i. set_file_path (server i)
                    (truediv E (Path E save_path)
                       (grb_base_name @ ''_'' @ str_nat i @ ''_store.h5'')))
               (filter (\<lambda>i. \<not> exists E
                    (truediv E (Path E save_path)
                       (grb_base_name @ ''_'' @ str_nat i @ ''_store.h5'')))
                  [0 ..< u_n_grbs u])"
  using assms by (rule run_list_of_init)

section \<open>Construction: the parameter T0\<close>

lemma map_of_setitem: "map_of (setitem d k v) = (map_of d)(k \<mapsto> v)"
  by (simp add: setitem_def update_conv')

lemma add_local_parameters_other:
  "add_local_parameters lp i d = Inr d' \<Longrightarrow> k \<notin> fst ` set lp \<Longrightarrow> map_of d' k = map_of d k"
proof (induction lp arbitrary: d)
  case Nil
  then show ?case by simp
next
  case (Cons kv lp)
  obtain k' v where kv: "kv = (k', v)" by (cases kv)
  from Cons.prems(1) obtain x where
    rest: "add_local_parameters lp i (setitem d k' (NpScalar x)) = Inr d'"
    unfolding kv by (auto split: sum.splits)
  from Cons.prems(2) have ne: "k \<noteq> k'" and notin: "k \<notin> fst ` set lp"
    unfolding kv by auto
  from Cons.IH [OF rest notin] ne show ?case by (simp add: map_of_setitem)
qed

lemma add_local_parameters_dom:
  "add_local_parameters lp i d = Inr d' \<Longrightarrow> map_of d k \<noteq> None \<Longrightarrow> map_of d' k \<noteq> None"
proof (induction lp arbitrary: d)
  case Nil
  then show ?case by simp
next
  case (Cons kv lp)
  obtain k' v where kv: "kv = (k', v)" by (cases kv)
  from Cons.prems(1) obtain x where
    rest: "add_local_parameters lp i (setitem d k' (NpScalar x)) = Inr d'"
    unfolding kv by (auto split: sum.splits)
  have "map_of (setitem d k' (NpScalar x)) k \<noteq> None"
    using Cons.prems(2) by (simp add: map_of_setitem)
  from Cons.IH [OF rest this] show ?case .
qed

lemma param_dict_of_Inr:
  assumes "param_dict_of u i = Inr d"
  shows "\<exists>d5. add_local_parameters (u_local_parameters u) i d5 = Inr d \<and>
           map_of d5 ''T0'' = Some (PyFloat 0) \<and>
           (\<forall>k \<in> set required_keys. map_of d5 k \<noteq> None)"
  using assms unfolding param_dict_of_def Let_def
  by (auto split: sum.splits simp: map_of_setitem required_keys_def)

lemma param_dict_of_T0:
  assumes "param_dict_of u i = Inr d" and "''T0'' \<notin> fst ` set (u_local_parameters u)"
  shows "getitem d ''T0'' = Some (PyFloat 0)"
proof -
  from param_dict_of_Inr [OF assms(1)] obtain d5 where
    "add_local_parameters (u_local_parameters u) i d5 = Inr d"
    and "map_of d5 ''T0'' = Some (PyFloat 0)" by blast
  with add_local_parameters_other [OF _ assms(2)] show ?thesis
    by (simp add: getitem_def)
qed

lemma param_dict_of_required:
  assumes "param_dict_of u i = Inr d" and "k \<in> set required_keys"
  shows "getitem d k \<noteq> None"
proof -
  from param_dict_of_Inr [OF assms(1)] obtain d5 where
    "add_local_parameters (u_local_parameters u) i d5 = Inr d"
    and "\<forall>k \<in> set required_keys. map_of d5 k \<noteq> None" by blast
  with assms(2) add_local_parameters_dom show ?thesis
    unfolding getitem_def by blast
qed

lemma fold_setitem_other:
  "\<forall>(k', v) \<in> set kws. k' \<noteq> k \<Longrightarrow>
     map_of (fold (\<lambda>(k, v) acc. setitem acc k v) kws d) k = map_of d k"
  by (induction kws arbitrary: d) (auto simp: map_of_setitem)

lemma ParameterServer_init_total:
  assumes "\<forall>k \<in> set required_keys. getitem d k \<noteq> None"
  shows "\<exists>ps. ParameterServer_init d = Inr ps \<and> file_path ps = None \<and>
           (\<forall>k \<in> set required_keys. getitem (parameters ps) k = getitem d k)"
proof -
  from assms obtain name ra dec z duration T0 where
    g: "getitem d ''name'' = Some name" "getitem d ''ra'' = Some ra"
       "getitem d ''dec'' = Some dec" "getitem d ''z'' = Some z"
       "getitem d ''duration'' = Some duration" "getitem d ''T0'' = Some T0"
    by (auto simp: required_keys_def)
  have keep: "\<And>k base. k \<in> set required_keys \<Longrightarrow>
     map_of (fold (\<lambda>(k, v) acc. setitem acc k v)
        (filter (\<lambda>(k, v). k \<notin> set required_keys) d) base) k = map_of base k"
    by (rule fold_setitem_other) auto
  show ?thesis
    using g by (auto simp: ParameterServer_init_def Let_def getitem_def keep) (auto simp: required_keys_def)
qed

text \<open>
  C10. When the constructor returns a Universe, the dictionary it built for every record
  index \<open>i\<close> holds \<open>T0 = 0.0\<close>, and the class ParameterServer built from that dictionary
  has the parameter \<open>T0 = 0.0\<close>; so has every ParameterServer of the run list when the
  ParameterServer type is that class. The constructor starts with no local parameter, so
  nothing read from the population and no argument of the constructor reaches \<open>T0\<close>.
\<close>

theorem T0_is_zero:
  fixes E :: "('a, 'p) env"
  assumes "Universe_init E population_file grb_base_name save_path = Inr u"
  shows "(\<forall>i < u_n_grbs u. \<exists>d. param_dict_of u i = Inr d \<and>
            getitem d ''T0'' = Some (PyFloat 0) \<and>
            (\<exists>ps :: ('a, 'p) parameter_server. ParameterServer_init d = Inr ps \<and>
               getitem (parameters ps) ''T0'' = Some (PyFloat 0))) \<and>
         (parameter_server_type E = ParameterServer_init \<longrightarrow>
            (\<forall>ps \<in> set (u_parameter_servers u).
               getitem (parameters ps) ''T0'' = Some (PyFloat 0)))"
proof -
  from Universe_init_Inr [OF assms] have lp: "u_local_parameters u = []" by auto
  from run_list_of_init [OF assms] obtain server where
    all: "\<forall>i < u_n_grbs u. \<exists>d. param_dict_of u i = Inr d \<and>
              parameter_server_type E d = Inr (server i)"
    and run: "u_parameter_servers u =
             map (\<lambda>i. set_file_path (server i)
                    (truediv E (Path E save_path)
                       (grb_base_name @ ''_'' @ str_nat i @ ''_store.h5'')))
               (filter (\<lambda>i. \<not> exists E
                    (truediv E (Path E save_path)
                       (grb_base_name @ ''_'' @ str_nat i @ ''_store.h5'')))
                  [0 ..< u_n_grbs u])"
    by blast
  have each: "\<exists>d. param_dict_of u i = Inr d \<and> parameter_server_type E d = Inr (server i) \<and>
            getitem d ''T0'' = Some (PyFloat 0) \<and>
            (\<exists>ps :: ('a, 'p) parameter_server. ParameterServer_init d = Inr ps \<and>
               getitem (parameters ps) ''T0'' = Some (PyFloat 0))"
    if "i < u_n_grbs u" for i
  proof -
    from all that obtain d where d: "param_dict_of u i = Inr d"
      and s: "parameter_server_type E d = Inr (server i)" by blast
    have t0: "getitem d ''T0'' = Some (PyFloat 0)"
      by (rule param_dict_of_T0 [OF d]) (simp add: lp)
    have "\<forall>k \<in> set required_keys. getitem d k \<noteq> None"
      using param_dict_of_required [OF d] by blast
    from ParameterServer_init_total [OF this] obtain ps :: "('a, 'p) parameter_server" where
      "ParameterServer_init d = Inr ps"
      and "\<forall>k \<in> set required_keys. getitem (parameters ps) k = getitem d k" by blast
    with t0 have "ParameterServer_init d = Inr ps \<and> getitem (parameters ps) ''T0'' = Some (PyFloat 0)"
      by (simp add: required_keys_def)
    with d s t0 show ?thesis by blast
  qed
  have second: "getitem (parameters ps) ''T0'' = Some (PyFloat 0)"
    if pst: "parameter_server_type E = ParameterServer_init"
      and mem: "ps \<in> set (u_parameter_servers u)" for ps
  proof -
    from mem obtain i where i: "i < u_n_grbs u"
      and ps: "ps = set_file_path (server i)
                    (truediv E (Path E save_path)
                       (grb_base_name @ ''_'' @ str_nat i @ ''_store.h5''))"
      unfolding run by auto
    from each [OF i] pst have "getitem (parameters (server i)) ''T0'' = Some (PyFloat 0)"
      by auto
    then show ?thesis by (simp add: ps set_file_path_def)
  qed
  from each second show ?thesis by blast
qed

section \<open>The registry: what a call leaves alone\<close>

lemma on_object_frame:
  "on_object a m P = (r, P') \<Longrightarrow>
     inst P' = inst P \<and> rg_next P' = rg_next P \<and> rg_store P' = rg_store P \<and>
     drm_next P' = drm_next P \<and> (\<forall>b. b \<noteq> a \<longrightarrow> drm_store P' b = drm_store P b)"
  by (auto simp: on_object_def split: prod.splits)

lemma generate_response_frame:
  assumes "generate_response L self ra dec time det_name P = (r, P')"
  shows "inst P' = inst P \<and> rg_next P' = rg_next P \<and> rg_store P' = rg_store P \<and>
     drm_next P' = drm_next P"
  using assms unfolding generate_response_def
  by (auto split: option.splits prod.splits dest!: on_object_frame)

lemma set_time_frame:
  assumes "set_time L self time det_name P = (r, P')"
  shows "inst P' = inst P \<and> rg_next P' = rg_next P \<and> rg_store P' = rg_store P \<and>
     drm_next P' = drm_next P"
  using assms unfolding set_time_def
  by (auto split: option.splits prod.splits dest!: on_object_frame)

lemma set_location_frame:
  assumes "set_location L self ra dec det_name P = (r, P')"
  shows "inst P' = inst P \<and> rg_next P' = rg_next P \<and> rg_store P' = rg_store P \<and>
     drm_next P' = drm_next P"
  using assms unfolding set_location_def
  by (auto split: option.splits prod.splits dest!: on_object_frame)

lemma init_loop_frame:
  "init_loop L kvs self P = (r, P') \<Longrightarrow>
     inst P' = inst P \<and> rg_next P' = rg_next P \<and> rg_store P' = rg_store P \<and>
     drm_next P \<le> drm_next P'"
proof (induction kvs arbitrary: self P)
  case Nil
  then show ?case by simp
next
  case (Cons kv kvs)
  obtain k v where kv: "kv = (k, v)" by (cases kv)
  show ?case
    using Cons.prems unfolding kv
    by (auto simp: Let_def split: option.splits sum.splits dest!: Cons.IH)
qed

lemma init_loop_Inr:
  assumes "init_loop L kvs self P = (Inr self', P')"
    and "\<forall>k a. map_of (detectors self) k = Some a \<longrightarrow> a < drm_next P"
    and "\<forall>k k' a. map_of (detectors self) k = Some a \<and> map_of (detectors self) k' = Some a
           \<longrightarrow> k = k'"
  shows "dom (map_of (detectors self')) = dom (map_of (detectors self)) \<union> fst ` set kvs \<and>
         (\<forall>k a. map_of (detectors self') k = Some a \<longrightarrow> a < drm_next P') \<and>
         (\<forall>k k' a. map_of (detectors self') k = Some a \<and> map_of (detectors self') k' = Some a
           \<longrightarrow> k = k')"
  using assms
proof (induction kvs arbitrary: self P)
  case Nil
  then show ?case by simp
next
  case (Cons kv kvs)
  obtain k v where kv: "kv = (k, v)" by (cases kv)
  from Cons.prems(1) obtain translated drm_gen where
    gen: "DRMGenTTE L
            \<lparr> arg_det_name = translated, arg_time = 1, arg_T0 = gbm_orbit_T0 L,
              arg_cspecfile = get_path_of_data_file L (''gbm_cspec/'' @ k @ ''.pha''),
              arg_poshist = get_path_of_data_file L ''posthist.fit'',
              arg_mat_type = 2, arg_occult = False \<rparr> = Inr drm_gen"
    and rest: "init_loop L kvs
         (self \<lparr> detectors := AList.update k (drm_next P) (detectors self),
                 mc_energies := AList.update k (monte_carlo_energies L drm_gen) (mc_energies self),
                 ebounds := AList.update k (drm_ebounds L drm_gen) (ebounds self) \<rparr>)
         (P \<lparr> drm_store := (drm_store P)(drm_next P := drm_gen), drm_next := Suc (drm_next P) \<rparr>)
       = (Inr self', P')"
    unfolding kv by (auto simp: Let_def split: option.splits sum.splits)
  let ?self = "self \<lparr> detectors := AList.update k (drm_next P) (detectors self),
                 mc_energies := AList.update k (monte_carlo_energies L drm_gen) (mc_energies self),
                 ebounds := AList.update k (drm_ebounds L drm_gen) (ebounds self) \<rparr>"
  let ?P = "P \<lparr> drm_store := (drm_store P)(drm_next P := drm_gen), drm_next := Suc (drm_next P) \<rparr>"
  have m: "map_of (detectors ?self) = (map_of (detectors self))(k \<mapsto> drm_next P)"
    by (simp add: update_conv')
  have a1: "\<forall>k a. map_of (detectors ?self) k = Some a \<longrightarrow> a < drm_next ?P"
    using Cons.prems(2) unfolding m by (auto simp: less_Suc_eq)
  have a2: "\<forall>k k' a. map_of (detectors ?self) k = Some a \<and> map_of (detectors ?self) k' = Some a
           \<longrightarrow> k = k'"
    using Cons.prems(2,3) unfolding m by (auto split: if_splits)
  from Cons.IH [OF rest a1 a2] have
    ih1: "dom (map_of (detectors self')) = dom (map_of (detectors ?self)) \<union> fst ` set kvs"
    and ih2: "\<forall>k a. map_of (detectors self') k = Some a \<longrightarrow> a < drm_next P'"
    and ih3: "\<forall>k k' a. map_of (detectors self') k = Some a \<and> map_of (detectors self') k' = Some a
           \<longrightarrow> k = k'"
    by blast+
  have d: "dom (map_of (detectors self')) = dom (map_of (detectors self)) \<union> fst ` set (kv # kvs)"
    unfolding ih1 m kv by auto
  show ?case using d ih2 ih3 by blast
qed

lemma same_registry_refl [simp]: "same_registry P P"
  by (simp add: same_registry_def)

lemma same_registry_trans: "same_registry P P' \<Longrightarrow> same_registry P' P'' \<Longrightarrow> same_registry P P''"
  by (simp add: same_registry_def)

lemma SingletonMeta_call_Some:
  "inst P = Some a \<Longrightarrow> SingletonMeta_call L P = (Inr a, P)"
  by (simp add: SingletonMeta_call_def)

lemma SingletonMeta_call_Inr:
  assumes "SingletonMeta_call L P = (Inr a, P')"
  shows "inst P' = Some a"
  using assms unfolding SingletonMeta_call_def
  by (auto simp: Let_def split: option.splits sum.splits prod.splits)

lemma run_request_same:
  assumes "inst P = Some a"
  shows "same_registry P (run_request L r P)"
proof (cases r)
  case Construct
  then show ?thesis using assms by (simp add: run_request_def SingletonMeta_call_Some)
next
  case (Generate_response ra dec time det_name)
  obtain res P' where e: "generate_response L (rg_store P a) ra dec time det_name P = (res, P')"
    by (cases "generate_response L (rg_store P a) ra dec time det_name P")
  from generate_response_frame [OF e] show ?thesis
    using assms Generate_response e by (simp add: run_request_def same_registry_def)
next
  case (Set_time time det_name)
  obtain res P' where e: "set_time L (rg_store P a) time det_name P = (res, P')"
    by (cases "set_time L (rg_store P a) time det_name P")
  from set_time_frame [OF e] show ?thesis
    using assms Set_time e by (simp add: run_request_def same_registry_def)
next
  case (Set_location ra dec det_name)
  obtain res P' where e: "set_location L (rg_store P a) ra dec det_name P = (res, P')"
    by (cases "set_location L (rg_store P a) ra dec det_name P")
  from set_location_frame [OF e] show ?thesis
    using assms Set_location e by (simp add: run_request_def same_registry_def)
qed

lemma run_requests_same:
  "inst P = Some a \<Longrightarrow> same_registry P (run_requests L rs P)"
proof (induction rs arbitrary: P)
  case Nil
  then show ?case by (simp add: run_requests_def)
next
  case (Cons r rs)
  have one: "same_registry P (run_request L r P)"
    by (rule run_request_same [OF Cons.prems])
  then have "inst (run_request L r P) = Some a"
    using Cons.prems by (simp add: same_registry_def)
  from Cons.IH [OF this] have "same_registry (run_request L r P) (run_requests L rs (run_request L r P))" .
  with one show ?case
    by (auto simp: run_requests_def intro: same_registry_trans)
qed

lemma SingletonMeta_call_inv:
  assumes "fresh_or_single P"
  shows "fresh_or_single (snd (SingletonMeta_call L P))"
proof (cases "inst P")
  case (Some a)
  then show ?thesis using assms by (simp add: SingletonMeta_call_Some)
next
  case None
  obtain r P1 where e: "ResponseGenerator_init L P = (r, P1)"
    by (cases "ResponseGenerator_init L P")
  from e have fr: "inst P1 = inst P \<and> rg_next P1 = rg_next P"
    unfolding ResponseGenerator_init_def by (auto dest: init_loop_frame)
  show ?thesis
    using assms None e fr
    by (cases r) (auto simp: SingletonMeta_call_def fresh_or_single_def Let_def)
qed

lemma run_request_inv:
  assumes "fresh_or_single P"
  shows "fresh_or_single (run_request L r P)"
proof (cases "inst P")
  case None
  show ?thesis
  proof (cases r)
    case Construct
    then show ?thesis using SingletonMeta_call_inv [OF assms] by (simp add: run_request_def)
  qed (use None assms in \<open>simp_all add: run_request_def\<close>)
next
  case (Some a)
  from run_request_same [OF Some, of L r] show ?thesis
    using assms Some by (auto simp: same_registry_def fresh_or_single_def)
qed

lemma run_requests_inv:
  "fresh_or_single P \<Longrightarrow> fresh_or_single (run_requests L rs P)"
  unfolding run_requests_def
  by (induction rs arbitrary: P) (auto intro: run_request_inv)

text \<open>
  C4. In a process that starts with no ResponseGenerator, after any history of
  construction requests (the module's own \<open>gbm_response_generator = ResponseGenerator()\<close>
  is the first) and method calls at most one instance has been built. Every
  construction request that returns then returns that one instance (the reference 0) and,
  from the first that returned, a request leaves the process as it finds it: the
  instance, its detector objects and the counts of objects built are those of the first
  build, whatever was called in between.
\<close>

theorem registry_singleton:
  assumes "inst P0 = None" and "rg_next P0 = 0"
  shows "rg_next (run_requests L rs P0) \<le> 1 \<and>
         (\<forall>a P1. SingletonMeta_call L (run_requests L rs P0) = (Inr a, P1) \<longrightarrow>
            a = 0 \<and> rg_next P1 = 1 \<and>
            (\<forall>rs'. SingletonMeta_call L (run_requests L rs' P1) = (Inr a, run_requests L rs' P1) \<and>
                    same_registry P1 (run_requests L rs' P1)))"
proof -
  have f0: "fresh_or_single P0" using assms by (simp add: fresh_or_single_def)
  let ?P = "run_requests L rs P0"
  have inv: "fresh_or_single ?P" by (rule run_requests_inv [OF f0])
  then have le: "rg_next ?P \<le> 1" by (auto simp: fresh_or_single_def)
  have rest: "a = 0 \<and> rg_next P1 = 1 \<and>
            (\<forall>rs'. SingletonMeta_call L (run_requests L rs' P1) = (Inr a, run_requests L rs' P1) \<and>
                    same_registry P1 (run_requests L rs' P1))"
    if call: "SingletonMeta_call L ?P = (Inr a, P1)" for a P1
  proof -
    have i1: "inst P1 = Some a" by (rule SingletonMeta_call_Inr [OF call])
    have "fresh_or_single (snd (SingletonMeta_call L ?P))" by (rule SingletonMeta_call_inv [OF inv])
    then have "fresh_or_single P1" using call by simp
    with i1 have a0: "a = 0" and n1: "rg_next P1 = 1" by (auto simp: fresh_or_single_def)
    have later: "SingletonMeta_call L (run_requests L rs' P1) = (Inr a, run_requests L rs' P1) \<and>
                    same_registry P1 (run_requests L rs' P1)" for rs'
    proof -
      have s: "same_registry P1 (run_requests L rs' P1)" by (rule run_requests_same [OF i1])
      then have "inst (run_requests L rs' P1) = Some a" using i1 by (simp add: same_registry_def)
      then show ?thesis using s by (simp add: SingletonMeta_call_Some)
    qed
    show ?thesis using a0 n1 later by blast
  qed
  show ?thesis using le rest by blast
qed

lemma ResponseGenerator_init_Inr:
  assumes "ResponseGenerator_init L P = (Inr self, P')"
  shows "dom (map_of (detectors self)) = fst ` set det_translate \<and>
         (\<forall>k k' a. map_of (detectors self) k = Some a \<and> map_of (detectors self) k' = Some a
           \<longrightarrow> k = k')"
  using init_loop_Inr [OF assms [unfolded ResponseGenerator_init_def]] by simp

text \<open>
  C3. For a detector name that is not a key of the registry's \<open>_detectors\<close>, each of
  \<open>generate_response\<close>, \<open>set_time\<close> and \<open>set_location\<close> fails with the assertion error
  of its \<open>assert det_name in self._detectors\<close> and leaves the whole process, so every
  detector object, as it was.
\<close>

theorem unknown_detector:
  assumes "det_name \<notin> fst ` set (detectors self)"
  shows "generate_response L self ra dec time det_name P = (Inl (AssertionError []), P) \<and>
         set_time L self time det_name P = (Some (AssertionError []), P) \<and>
         set_location L self ra dec det_name P = (Inl (AssertionError []), P)"
proof -
  from assms have "map_of (detectors self) det_name = None"
    by (simp add: map_of_eq_None_iff)
  then show ?thesis
    by (simp add: generate_response_def set_time_def set_location_def)
qed

text \<open>
  C5. For a registry built by the constructor and every one of the fourteen registered
  names, \<open>generate_response\<close> for \<open>(ra, dec, time)\<close>, when neither method of the detector
  raises, leaves the named detector object in the state that \<open>set_time time\<close> followed by
  \<open>set_location ra dec\<close> gives it, returns the transposed matrix of that state, and
  leaves the object of every other registered name untouched.
\<close>

theorem generate_response_sets_time_then_location:
  assumes built: "ResponseGenerator_init L P0 = (Inr self, P1)"
    and reg: "det_name \<in> fst ` set det_translate"
  shows "\<exists>a. map_of (detectors self) det_name = Some a \<and>
           (\<forall>d1 d2. drm_set_time L (drm_store P a) time = (None, d1) \<and>
                    drm_set_location L d1 ra dec = (None, d2) \<longrightarrow>
              generate_response L self ra dec time det_name P =
                (Inr (transpose_T L (matrix L d2)), P \<lparr> drm_store := (drm_store P)(a := d2) \<rparr>) \<and>
              (\<forall>k b. k \<noteq> det_name \<and> map_of (detectors self) k = Some b \<longrightarrow>
                 drm_store (snd (generate_response L self ra dec time det_name P)) b = drm_store P b))"
proof -
  from ResponseGenerator_init_Inr [OF built] have
    dom: "dom (map_of (detectors self)) = fst ` set det_translate"
    and inj: "\<forall>k k' a. map_of (detectors self) k = Some a \<and> map_of (detectors self) k' = Some a
           \<longrightarrow> k = k'"
    by blast+
  from reg dom obtain a where a: "map_of (detectors self) det_name = Some a"
    by (metis domD)
  have main: "generate_response L self ra dec time det_name P =
                (Inr (transpose_T L (matrix L d2)), P \<lparr> drm_store := (drm_store P)(a := d2) \<rparr>) \<and>
              (\<forall>k b. k \<noteq> det_name \<and> map_of (detectors self) k = Some b \<longrightarrow>
                 drm_store (snd (generate_response L self ra dec time det_name P)) b = drm_store P b)"
    if t: "drm_set_time L (drm_store P a) time = (None, d1)"
      and l: "drm_set_location L d1 ra dec = (None, d2)" for d1 d2
  proof -
    have eq: "generate_response L self ra dec time det_name P =
                (Inr (transpose_T L (matrix L d2)), P \<lparr> drm_store := (drm_store P)(a := d2) \<rparr>)"
      using a t l by (simp add: generate_response_def on_object_def)
    have "drm_store (snd (generate_response L self ra dec time det_name P)) b = drm_store P b"
      if "k \<noteq> det_name" and "map_of (detectors self) k = Some b" for k b
    proof -
      from that a inj have "b \<noteq> a" by blast
      then show ?thesis by (simp add: eq)
    qed
    with eq show ?thesis by blast
  qed
  show ?thesis using a main by blast
qed

section \<open>go, save and the wrapper\<close>










section \<open>The constructors return\<close>

text \<open>
  The statements about a constructor that returned are not empty: the Universe constructor
  returns for every population that has a duration and whose arrays, after the
  projection, are as long as its selection, when the ParameterServer type
  is the class ParameterServer; the registry constructor returns whenever no DRMGenTTE
  construction raises.
\<close>

lemma contstruct_loop_total:
  assumes "\<forall>i \<in> set is. \<forall>servers. \<exists>servers'. contstruct_one E u i servers = Inr servers'"
  shows "\<exists>out. contstruct_loop E u is servers = Inr out"
  using assms
proof (induction "is" arbitrary: servers)
  case Nil
  then show ?case by simp
next
  case (Cons i "is")
  from Cons.prems obtain mid where "contstruct_one E u i servers = Inr mid"
    by (metis list.set_intros(1))
  moreover from Cons.prems have
    "\<forall>i \<in> set is. \<forall>servers. \<exists>servers'. contstruct_one E u i servers = Inr servers'"
    by simp
  from Cons.IH [OF this] have "\<exists>out. contstruct_loop E u is mid = Inr out" .
  ultimately show ?case by simp
qed

lemma Universe_init_total:
  fixes E :: "('a, 'p) env"
  assumes pfile: "from_file E population_file = Inr loaded"
    and dur: "pop_duration (to_sub_population loaded) = Some d"
    and len: "length (selection (to_sub_population loaded)) \<le> length (pop_ra (to_sub_population loaded))"
      "length (selection (to_sub_population loaded)) \<le> length (pop_dec (to_sub_population loaded))"
      "length (selection (to_sub_population loaded)) \<le> length (distances (to_sub_population loaded))"
      "length (selection (to_sub_population loaded)) \<le> length d"
    and pst: "parameter_server_type E = ParameterServer_init"
  shows "\<exists>u. Universe_init E population_file grb_base_name save_path = Inr u"
proof -
  let ?pop = "to_sub_population loaded"
  let ?n = "length (selection ?pop)"
  let ?u = "\<lparr> u_population_file = absolute E (Path E population_file),
                        u_is_processed = False,
                        u_population = ?pop,
                        u_grb_base_name = grb_base_name,
                        u_save_path = Path E save_path,
                        u_n_grbs = ?n,
                        u_name = map (grb_name grb_base_name) [0 ..< ?n],
                        u_local_parameters = [],
                        u_parameter_servers = [],
                        u_ra = pop_ra ?pop, u_dec = pop_dec ?pop, u_z = distances ?pop,
                        u_duration = d \<rparr>"
  have one: "\<exists>servers'. contstruct_one E ?u i servers = Inr servers'"
    if "i \<in> set [0 ..< ?n]" for i servers
  proof -
    from that have i: "i < ?n" by simp
    with len obtain dict where dict: "param_dict_of ?u i = Inr dict"
      by (auto simp: param_dict_of_def index_def Let_def)
    have "\<forall>k \<in> set required_keys. getitem dict k \<noteq> None"
      using param_dict_of_required [OF dict] by blast
    from ParameterServer_init_total [OF this] obtain ps :: "('a, 'p) parameter_server" where
      "ParameterServer_init dict = Inr ps" by blast
    with dict i pst show ?thesis
      by (auto simp: contstruct_one_def index_def Let_def)
  qed
  then have "\<exists>out. contstruct_loop E ?u [0 ..< ?n] [] = Inr out"
    by (intro contstruct_loop_total) blast
  then obtain out where "contstruct_loop E ?u [0 ..< ?n] [] = Inr out" ..
  then show ?thesis
    using pfile dur
    by (simp add: Universe_init_def Let_def selection_check_holds process_populations_def
        get_duration_def get_redshift_def get_sky_coord_def contstruct_parameter_servers_def)
qed

lemma init_loop_total:
  assumes "\<forall>args. \<exists>d. DRMGenTTE L args = Inr d"
    and "fst ` set kvs \<subseteq> fst ` set det_translate"
  shows "\<exists>self' P'. init_loop L kvs self P = (Inr self', P')"
  using assms(2)
proof (induction kvs arbitrary: self P)
  case Nil
  then show ?case by simp
next
  case (Cons kv kvs)
  obtain k v where kv: "kv = (k, v)" by (cases kv)
  from Cons.prems kv have "k \<in> fst ` set det_translate" by simp
  then obtain translated where tr: "map_of det_translate k = Some translated"
    by (metis domD dom_map_of_conv_image_fst)
  from assms(1) obtain drm_gen where
    gen: "DRMGenTTE L
            \<lparr> arg_det_name = translated, arg_time = 1, arg_T0 = gbm_orbit_T0 L,
              arg_cspecfile = get_path_of_data_file L (''gbm_cspec/'' @ k @ ''.pha''),
              arg_poshist = get_path_of_data_file L ''posthist.fit'',
              arg_mat_type = 2, arg_occult = False \<rparr> = Inr drm_gen"
    by blast
  from Cons.prems have "fst ` set kvs \<subseteq> fst ` set det_translate" by simp
  from Cons.IH [OF this] tr gen show ?case
    unfolding kv by (simp add: Let_def)
qed

lemma ResponseGenerator_init_total:
  assumes "\<forall>args. \<exists>d. DRMGenTTE L args = Inr d"
  shows "\<exists>self P'. ResponseGenerator_init L P = (Inr self, P')"
  unfolding ResponseGenerator_init_def
  by (rule init_loop_total [OF assms]) simp

section \<open>The example, checked\<close>

text \<open>
  The statements above at the worked example: the three-record population with
  \<open>Test_1_store.h5\<close> present, the file with a cleared flag and no duration, and the
  registry of the fourteen detectors.
\<close>

theorem skip_rule_witness:
  "Universe_init ex_env ''pop.h5'' ''Test'' ''out'' = Inr ex_universe \<and>
   exists ex_env ''out/Test_1_store.h5'' \<and>
   map file_path (u_parameter_servers ex_universe) =
     [Some ''out/Test_0_store.h5'', Some ''out/Test_2_store.h5''] \<and>
   (\<exists>server.
      (\<forall>i < u_n_grbs ex_universe. \<exists>d. param_dict_of ex_universe i = Inr d \<and>
         parameter_server_type ex_env d = Inr (server i)) \<and>
      u_parameter_servers ex_universe =
        map (\<lambda>i. set_file_path (server i)
               (truediv ex_env (Path ex_env ''out'') (''Test'' @ ''_'' @ str_nat i @ ''_store.h5'')))
          (filter (\<lambda>i. \<not> exists ex_env
               (truediv ex_env (Path ex_env ''out'') (''Test'' @ ''_'' @ str_nat i @ ''_store.h5'')))
             [0 ..< u_n_grbs ex_universe]))"
proof -
  have h: "Universe_init ex_env ''pop.h5'' ''Test'' ''out'' = Inr ex_universe"
    by code_simp
  have e: "exists ex_env ''out/Test_1_store.h5''"
    by (simp add: ex_env_def)
  have p: "map file_path (u_parameter_servers ex_universe) =
     [Some ''out/Test_0_store.h5'', Some ''out/Test_2_store.h5'']"
    by (simp add: ex_universe_def)
  from skip_rule [OF h] h e p show ?thesis by blast
qed

theorem missing_duration_rejected_witness:
  "from_file ex_env ''bad.h5'' =
     Inr (ex_population \<lparr> selection := [True, False, True], pop_duration := None \<rparr>) \<and>
   pop_duration (ex_population \<lparr> selection := [True, False, True], pop_duration := None \<rparr>) =
     None \<and>
   Universe_init ex_env ''bad.h5'' ''Test'' ''out'' =
     Inl (RuntimeError ''The population must contain a duration value'')"
proof -
  have a: "from_file ex_env ''bad.h5'' =
     Inr (ex_population \<lparr> selection := [True, False, True], pop_duration := None \<rparr>)"
    by (simp add: ex_env_def)
  have b: "pop_duration (ex_population \<lparr> selection := [True, False, True], pop_duration := None \<rparr>) =
     None"
    by simp
  from missing_duration_rejected [OF a b, of "''Test''" "''out''"] a b show ?thesis by blast
qed

theorem T0_is_zero_witness:
  "Universe_init ex_env ''pop.h5'' ''Test'' ''out'' = Inr ex_universe \<and>
   (1 :: nat) < u_n_grbs ex_universe \<and>
   (\<exists>d. param_dict_of ex_universe 1 = Inr d \<and> getitem d ''T0'' = Some (PyFloat 0) \<and>
      (\<exists>ps :: (int, string) parameter_server. ParameterServer_init d = Inr ps \<and>
         getitem (parameters ps) ''T0'' = Some (PyFloat 0))) \<and>
   parameter_server_type ex_env = ParameterServer_init \<and>
   getitem (parameters (hd (u_parameter_servers ex_universe))) ''T0'' = Some (PyFloat 0)"
proof -
  have h: "Universe_init ex_env ''pop.h5'' ''Test'' ''out'' = Inr ex_universe"
    by code_simp
  have n: "(1 :: nat) < u_n_grbs ex_universe" by (simp add: ex_universe_def)
  have t: "parameter_server_type ex_env = ParameterServer_init" by (simp add: ex_env_def)
  have m: "hd (u_parameter_servers ex_universe) \<in> set (u_parameter_servers ex_universe)"
    by (simp add: ex_universe_def)
  from T0_is_zero [OF h] n t m h show ?thesis by blast
qed

theorem unknown_detector_witness:
  "''zz'' \<notin> fst ` set (detectors ex_registry) \<and>
   generate_response ex_lib ex_registry 10 20 5 ''zz'' ex_built = (Inl (AssertionError []), ex_built) \<and>
   set_time ex_lib ex_registry 5 ''zz'' ex_built = (Some (AssertionError []), ex_built) \<and>
   set_location ex_lib ex_registry 10 20 ''zz'' ex_built = (Inl (AssertionError []), ex_built)"
proof -
  have "map_of (detectors ex_registry) ''zz'' = None"
    by code_simp
  then have h: "''zz'' \<notin> fst ` set (detectors ex_registry)"
    by (simp add: map_of_eq_None_iff)
  from unknown_detector [OF h, where L = ex_lib and ra = 10 and dec = 20 and time = 5
      and P = ex_built] h
  show ?thesis by simp
qed

theorem generate_response_witness:
  "ResponseGenerator_init ex_lib ex_process = (Inr ex_registry, ex_built) \<and>
   ''n3'' \<in> fst ` set det_translate \<and>
   map_of (detectors ex_registry) ''n3'' = Some 3 \<and>
   generate_response ex_lib ex_registry 10 20 5 ''n3'' ex_built =
     (Inr [20, 10, 5], ex_built \<lparr> drm_store := (drm_store ex_built)(3 := (5, 10, 20)) \<rparr>) \<and>
   map_of (detectors ex_registry) ''n4'' = Some 4 \<and>
   drm_store (snd (generate_response ex_lib ex_registry 10 20 5 ''n3'' ex_built)) 4 =
     drm_store ex_built 4"
proof -
  have f: "fst (ResponseGenerator_init ex_lib ex_process) = Inr ex_registry"
    by code_simp
  then have h: "ResponseGenerator_init ex_lib ex_process = (Inr ex_registry, ex_built)"
    by (simp add: ex_built_def prod_eq_iff)
  have r: "''n3'' \<in> fst ` set det_translate"
    by (simp add: det_translate_def)
  have a3: "map_of (detectors ex_registry) ''n3'' = Some 3"
    by code_simp
  have a4: "map_of (detectors ex_registry) ''n4'' = Some 4"
    by code_simp
  have s3: "drm_store ex_built 3 = (1, 0, 0)"
    by code_simp
  have t: "drm_set_time ex_lib (drm_store ex_built 3) 5 = (None, (5, 0, 0))"
    by (simp add: s3 ex_lib_def)
  have l: "drm_set_location ex_lib (5, 0, 0) 10 20 = (None, (5, 10, 20))"
    by (simp add: ex_lib_def)
  have m: "transpose_T ex_lib (matrix ex_lib (5, 10, 20)) = [20, 10, 5]"
    by (simp add: ex_lib_def)
  from generate_response_sets_time_then_location [OF h r, of ex_built 5 10 20]
  obtain a where a: "map_of (detectors ex_registry) ''n3'' = Some a"
    and rest: "\<forall>d1 d2. drm_set_time ex_lib (drm_store ex_built a) 5 = (None, d1) \<and>
                    drm_set_location ex_lib d1 10 20 = (None, d2) \<longrightarrow>
              generate_response ex_lib ex_registry 10 20 5 ''n3'' ex_built =
                (Inr (transpose_T ex_lib (matrix ex_lib d2)),
                 ex_built \<lparr> drm_store := (drm_store ex_built)(a := d2) \<rparr>) \<and>
              (\<forall>k b. k \<noteq> ''n3'' \<and> map_of (detectors ex_registry) k = Some b \<longrightarrow>
                 drm_store (snd (generate_response ex_lib ex_registry 10 20 5 ''n3'' ex_built)) b =
                 drm_store ex_built b)"
    by blast
  from a a3 have a_eq: "a = 3" by simp
  from rest [rule_format, of "(5, 0, 0)" "(5, 10, 20)"] t l have
    g: "generate_response ex_lib ex_registry 10 20 5 ''n3'' ex_built =
                (Inr (transpose_T ex_lib (matrix ex_lib (5, 10, 20))),
                 ex_built \<lparr> drm_store := (drm_store ex_built)(3 := (5, 10, 20)) \<rparr>)"
    and o: "\<forall>k b. k \<noteq> ''n3'' \<and> map_of (detectors ex_registry) k = Some b \<longrightarrow>
                 drm_store (snd (generate_response ex_lib ex_registry 10 20 5 ''n3'' ex_built)) b =
                 drm_store ex_built b"
    unfolding a_eq by blast+
  have ne: "''n4'' \<noteq> ''n3''" by simp
  from o [rule_format, of "''n4''" 4] ne a4
  have o4: "drm_store (snd (generate_response ex_lib ex_registry 10 20 5 ''n3'' ex_built)) 4 =
     drm_store ex_built 4" by blast
  from h r a3 g [unfolded m] a4 o4 show ?thesis by blast
qed

theorem registry_singleton_witness:
  "inst ex_process = None \<and> rg_next ex_process = 0 \<and>
   rg_next (run_requests ex_lib [Construct, Set_time 5 ''n0''] ex_process) \<le> 1 \<and>
   (\<exists>P1. SingletonMeta_call ex_lib (run_requests ex_lib [Construct, Set_time 5 ''n0''] ex_process) =
            (Inr 0, P1) \<and>
          rg_next P1 = 1 \<and>
          SingletonMeta_call ex_lib (run_requests ex_lib [Generate_response 10 20 5 ''n3'', Construct] P1) =
            (Inr 0, run_requests ex_lib [Generate_response 10 20 5 ''n3'', Construct] P1) \<and>
          same_registry P1 (run_requests ex_lib [Generate_response 10 20 5 ''n3'', Construct] P1))"
proof -
  have a: "inst ex_process = None" and b: "rg_next ex_process = 0"
    by (simp_all add: ex_process_def)
  let ?P = "run_requests ex_lib [Construct, Set_time 5 ''n0''] ex_process"
  have i: "inst ?P = Some 0" by code_simp
  then have c: "SingletonMeta_call ex_lib ?P = (Inr 0, ?P)"
    by (simp add: SingletonMeta_call_def)
  from registry_singleton [OF a b, of ex_lib "[Construct, Set_time 5 ''n0'']"] have
    le: "rg_next ?P \<le> 1"
    and rest: "\<forall>a P1. SingletonMeta_call ex_lib ?P = (Inr a, P1) \<longrightarrow>
            a = 0 \<and> rg_next P1 = 1 \<and>
            (\<forall>rs'. SingletonMeta_call ex_lib (run_requests ex_lib rs' P1) =
                      (Inr a, run_requests ex_lib rs' P1) \<and>
                    same_registry P1 (run_requests ex_lib rs' P1))"
    by blast+
  from rest c have
    "rg_next ?P = 1 \<and>
     (\<forall>rs'. SingletonMeta_call ex_lib (run_requests ex_lib rs' ?P) =
                      (Inr 0, run_requests ex_lib rs' ?P) \<and>
                    same_registry ?P (run_requests ex_lib rs' ?P))"
    by blast
  with a b le c show ?thesis by blast
qed




end
